theory Spec2Isabelle
  imports Main "HOL-Library.Sublist"
begin

section \<open>JavaScript strings\<close>

text \<open>
  The components work on JavaScript strings through three built-ins: \<^verbatim>\<open>trim\<close>,
  \<^verbatim>\<open>toLowerCase\<close> and \<^verbatim>\<open>includes\<close>. A string is modelled as a \<^typ>\<open>string\<close>
  whose characters are read as code units below 256 (Latin-1). On that range
  \<^verbatim>\<open>toLowerCase\<close> adds 32 to the letters A-Z and to the accented capitals
  0xC0-0xDE (the multiplication sign 0xD7 apart); adding 32 to such a code unit is
  setting its bit 5. White space for \<^verbatim>\<open>trim\<close> is tab, line feed, vertical tab,
  form feed, carriage return, space and the no-break space 0xA0.
\<close>

definition isWhiteSpace :: "char \<Rightarrow> bool" where
  "isWhiteSpace c = (of_char c \<in> {9, 10, 11, 12, 13, 32, 160 :: nat})"

definition trim :: "string \<Rightarrow> string" where
  "trim s = rev (dropWhile isWhiteSpace (rev (dropWhile isWhiteSpace s)))"

definition isUpper :: "char \<Rightarrow> bool" where
  "isUpper c =
     (let n = (of_char c :: nat)
      in (65 \<le> n \<and> n \<le> 90) \<or> (192 \<le> n \<and> n \<le> 222 \<and> n \<noteq> 215))"

definition toLowerChar :: "char \<Rightarrow> char" where
  "toLowerChar c =
     (if isUpper c
      then (case c of Char b0 b1 b2 b3 b4 b5 b6 b7 \<Rightarrow> Char b0 b1 b2 b3 b4 True b6 b7)
      else c)"

definition toLowerCase :: "string \<Rightarrow> string" where
  "toLowerCase s = map toLowerChar s"

text \<open>\<^verbatim>\<open>s.includes(w)\<close>: \<open>w\<close> occurs in \<open>s\<close> at some position.\<close>

fun includes_str :: "string \<Rightarrow> string \<Rightarrow> bool" where
  "includes_str [] w = (w = [])"
| "includes_str (c # cs) w = (prefix w (c # cs) \<or> includes_str cs w)"

text \<open>
  The specification's wording of the match, for comparison with the code: the input
  has a contiguous substring that equals the keyword once letter case is ignored.
\<close>

definition spec_contains_ci :: "string \<Rightarrow> string \<Rightarrow> bool" where
  "spec_contains_ci s w = (\<exists>u \<in> set (sublists s). toLowerCase u = toLowerCase w)"


section \<open>ChatEditor: data\<close>

datatype author = ai | user

text \<open>An entry of a reply's \<^verbatim>\<open>options\<close> array: \<^verbatim>\<open>{ type, thumbnail }\<close>.\<close>

record option_item =
  option_type :: string
  option_thumbnail :: string

text \<open>
  A chat message. The fields \<^verbatim>\<open>options\<close> and \<^verbatim>\<open>script\<close> are absent from most
  message objects; an absent field is \<open>None\<close>.
\<close>

record message =
  msg_id :: nat
  msg_type :: author
  msg_content :: string
  msg_options :: "option_item list option"
  msg_script :: "string option"
  msg_timestamp :: nat

record scene =
  scene_id :: nat
  scene_thumbnail :: string
  scene_time :: string

datatype tool = Scenes | Audio | Settings

text \<open>
  A pending \<^verbatim>\<open>setTimeout\<close> callback of \<^verbatim>\<open>generateAIResponse\<close>: the time at which
  it is due, and the two variables its closure captured, the argument
  \<^verbatim>\<open>userInput\<close> and the \<^verbatim>\<open>messages\<close> array of the render that scheduled it.
\<close>

record timer =
  due :: nat
  userInput :: string
  closure_messages :: "message list"

text \<open>
  The component's state: its four \<^verbatim>\<open>useState\<close> cells, together with the
  environment that drives it, a clock in milliseconds (\<^verbatim>\<open>new Date()\<close>) and the
  queue of pending timers.

  The handlers are closures of a render and read the constants of that render, not the
  cells. The field \<open>rendered\<close> is the constant \<^verbatim>\<open>messages\<close> of the latest render. The
  updates of a click, key press or change are rendered before the next event is
  handled; the update that a timer callback makes is rendered by a task of its own,
  which may come after the next user event. Of the four cells only \<^verbatim>\<open>messages\<close> is
  written by a timer callback, so it is the one cell whose rendered value can lag
  behind; for the other three the handlers always see the cell's value.
\<close>

record session =
  messages :: "message list"
  rendered :: "message list"
  input :: string
  activeScene :: nat
  activeToolPanel :: "tool option"
  now :: nat
  timers :: "timer list"

definition scenes :: "scene list" where
  "scenes =
     [\<lparr>scene_id = 1, scene_thumbnail = ''https://via.placeholder.com/120x68/333/fff?text=Scene+1'',
       scene_time = ''0:00-0:04''\<rparr>,
      \<lparr>scene_id = 2, scene_thumbnail = ''https://via.placeholder.com/120x68/333/fff?text=Scene+2'',
       scene_time = ''0:05-0:09''\<rparr>,
      \<lparr>scene_id = 3, scene_thumbnail = ''https://via.placeholder.com/120x68/333/fff?text=Scene+3'',
       scene_time = ''0:10-0:14''\<rparr>]"

text \<open>
  The state at mount, at time \<open>t0\<close>: the initial values of the \<^verbatim>\<open>useState\<close> cells,
  shown by the first render.
\<close>

definition initial_session :: "nat \<Rightarrow> session" where
  "initial_session t0 =
     \<lparr>messages =
        [\<lparr>msg_id = 1, msg_type = ai,
          msg_content = ''What would you like to change about your video?'',
          msg_options = None, msg_script = None, msg_timestamp = t0\<rparr>],
      rendered =
        [\<lparr>msg_id = 1, msg_type = ai,
          msg_content = ''What would you like to change about your video?'',
          msg_options = None, msg_script = None, msg_timestamp = t0\<rparr>],
      input = [],
      activeScene = 0,
      activeToolPanel = None,
      now = t0,
      timers = []\<rparr>"


section \<open>ChatEditor: handlers\<close>

text \<open>
  The script text that the reply to a script request carries. The Audio panel starts
  its script editor with the same text.
\<close>

definition default_script :: string where
  "default_script =
     ''Our product helps customers achieve their goals faster and with less effort than traditional methods.''"

definition generic_menu :: string where
  "generic_menu =
     ''I can help you with that. Would you like to: 1) Change scenes, 2) Edit script, or 3) Adjust the storyboard?''"

definition scene_options :: "option_item list" where
  "scene_options =
     [\<lparr>option_type = ''scene'',
       option_thumbnail = ''https://via.placeholder.com/160x90/444/fff?text=Option+1''\<rparr>,
      \<lparr>option_type = ''scene'',
       option_thumbnail = ''https://via.placeholder.com/160x90/444/fff?text=Option+2''\<rparr>,
      \<lparr>option_type = ''scene'',
       option_thumbnail = ''https://via.placeholder.com/160x90/444/fff?text=Option+3''\<rparr>]"

text \<open>
  The object that the timer callback of \<^verbatim>\<open>generateAIResponse\<close> builds: \<open>msgs\<close> is the
  \<^verbatim>\<open>messages\<close> array of its closure, \<open>t\<close> the clock when it runs.
\<close>

definition aiResponse :: "message list \<Rightarrow> nat \<Rightarrow> string \<Rightarrow> message" where
  "aiResponse msgs t inp =
     (let lowerInput = toLowerCase inp
      in if includes_str lowerInput ''replace'' \<or> includes_str lowerInput ''change scene'' then
           \<lparr>msg_id = length msgs + 2, msg_type = ai,
            msg_content =
              ''I can help replace that scene. Here are 3 alternatives I've generated based on your video style:'',
            msg_options = Some scene_options, msg_script = None, msg_timestamp = t\<rparr>
         else if includes_str lowerInput ''script'' \<or> includes_str lowerInput ''text'' then
           \<lparr>msg_id = length msgs + 2, msg_type = ai,
            msg_content = ''Here's the current script for this scene. You can edit it directly:'',
            msg_options = None, msg_script = Some default_script, msg_timestamp = t\<rparr>
         else
           \<lparr>msg_id = length msgs + 2, msg_type = ai,
            msg_content = generic_menu,
            msg_options = None, msg_script = None, msg_timestamp = t\<rparr>)"

text \<open>
  The timer callback: it appends the reply to the cell's value current when it runs
  (the functional update \<^verbatim>\<open>setMessages(prev => [...prev, aiResponse])\<close>). The render of
  this update is still to come.
\<close>

definition reply_callback :: "timer \<Rightarrow> session \<Rightarrow> session" where
  "reply_callback tm s =
     s\<lparr>messages := messages s @ [aiResponse (closure_messages tm) (now s) (userInput tm)]\<rparr>"

text \<open>
  \<^verbatim>\<open>generateAIResponse\<close> only schedules the callback, 1000 ms ahead. Its \<^verbatim>\<open>messages\<close>
  is the constant of the render in which the handler was created, passed here as
  \<open>msgs\<close>.
\<close>

definition generateAIResponse :: "message list \<Rightarrow> string \<Rightarrow> session \<Rightarrow> session" where
  "generateAIResponse msgs inp s =
     s\<lparr>timers := timers s @ [\<lparr>due = now s + 1000, userInput = inp, closure_messages = msgs\<rparr>]\<rparr>"

text \<open>
  \<^verbatim>\<open>handleSendMessage\<close> reads \<^verbatim>\<open>messages\<close> and \<^verbatim>\<open>input\<close> of its render. Its update
  \<^verbatim>\<open>setMessages([...messages, userMessage])\<close> is not functional: it replaces the value of
  the cell, whatever it is by then, by the render's list with the user message added.
  The event is a click or a key press, so the render that follows it, with the list
  just written, is in place before the next event.
\<close>

definition userMessage :: "session \<Rightarrow> message" where
  "userMessage s =
     \<lparr>msg_id = length (rendered s) + 1, msg_type = user, msg_content = input s,
      msg_options = None, msg_script = None, msg_timestamp = now s\<rparr>"

definition handleSendMessage :: "session \<Rightarrow> session" where
  "handleSendMessage s =
     (if trim (input s) = [] then s
      else generateAIResponse (rendered s) (input s)
             (s\<lparr>messages := rendered s @ [userMessage s],
                rendered := rendered s @ [userMessage s],
                input := []\<rparr>))"

definition handleSceneClick :: "nat \<Rightarrow> session \<Rightarrow> session" where
  "handleSceneClick sceneId s = s\<lparr>activeScene := sceneId\<rparr>"

definition handleKeyDown :: "string \<Rightarrow> bool \<Rightarrow> session \<Rightarrow> session" where
  "handleKeyDown key shiftKey s =
     (if key = ''Enter'' \<and> \<not> shiftKey then handleSendMessage s else s)"

definition handleToolClick :: "tool \<Rightarrow> session \<Rightarrow> session" where
  "handleToolClick t s = s\<lparr>activeToolPanel := Some t\<rparr>"

definition handleCloseToolPanel :: "session \<Rightarrow> session" where
  "handleCloseToolPanel s = s\<lparr>activeToolPanel := None\<rparr>"


section \<open>ChatEditor: timers and events\<close>

text \<open>
  Letting \<open>d\<close> milliseconds pass runs the callbacks that fall due, in the order of
  their due times (callbacks due together run in the order they were scheduled), each
  at its due time, and leaves the others pending.
\<close>

definition fire :: "session \<Rightarrow> timer \<Rightarrow> session" where
  "fire s tm = reply_callback tm (s\<lparr>now := max (now s) (due tm)\<rparr>)"

definition advance :: "nat \<Rightarrow> session \<Rightarrow> session" where
  "advance d s =
     (let t' = now s + d;
          ready = sort_key due (filter (\<lambda>tm. due tm \<le> t') (timers s));
          rest = filter (\<lambda>tm. \<not> due tm \<le> t') (timers s)
      in (foldl fire (s\<lparr>timers := rest\<rparr>) ready)\<lparr>now := t'\<rparr>)"

text \<open>
  Every delay in this component is 1000 ms, so in a running session no pending callback
  is due later than 1000 ms from now.
\<close>

definition pending_ok :: "session \<Rightarrow> bool" where
  "pending_ok s = list_all (\<lambda>tm. due tm \<le> now s + 1000) (timers s)"

text \<open>
  What is rendered: the open tool panel or, when none is open, the preview pane with
  the scene thumbnails and tool buttons and the chat pane.
\<close>

datatype view = ChatView | ScenesPanel | AudioPanel | SettingsPanel

fun getToolPanel :: "tool \<Rightarrow> view" where
  "getToolPanel Scenes = ScenesPanel"
| "getToolPanel Audio = AudioPanel"
| "getToolPanel Settings = SettingsPanel"

definition render :: "session \<Rightarrow> view" where
  "render s = (case activeToolPanel s of Some t \<Rightarrow> getToolPanel t | None \<Rightarrow> ChatView)"

text \<open>Tool panel \<open>t\<close> is open when it is what is rendered.\<close>

definition panel_open :: "session \<Rightarrow> tool \<Rightarrow> bool" where
  "panel_open s t = (render s = getToolPanel t)"

text \<open>
  The events the rendered elements can raise. The chat input, the send button, the
  thumbnails (one for each scene of the catalog, calling \<^verbatim>\<open>handleSceneClick\<close> with that
  scene's id) and the three tool buttons exist while no panel is open; a panel's close
  control exists while it is open; time passes in either view.
\<close>

text \<open>
  The render that shows the updates of the timer callbacks run so far.
\<close>

definition rerender :: "session \<Rightarrow> session" where
  "rerender s = s\<lparr>rendered := messages s\<rparr>"

text \<open>
  Each event is handled as a whole. Letting time pass runs the callbacks that fall due
  and leaves their render pending; the event \<open>Render\<close> is that render, and where it
  falls among the user's events is left open. A timer callback outlives its render
  and carries what it captured in its \<^typ>\<open>timer\<close>.
\<close>

datatype event =
    Change string
  | ClickSend
  | KeyDown string bool
  | ClickThumbnail nat
  | ClickTool tool
  | ClosePanel
  | Elapse nat
  | Render

fun dispatch :: "session \<Rightarrow> event \<Rightarrow> session" where
  "dispatch s (Elapse d) = advance d s"
| "dispatch s Render = rerender s"
| "dispatch s ClosePanel = (if activeToolPanel s = None then s else handleCloseToolPanel s)"
| "dispatch s (Change v) = (if activeToolPanel s = None then s\<lparr>input := v\<rparr> else s)"
| "dispatch s ClickSend = (if activeToolPanel s = None then handleSendMessage s else s)"
| "dispatch s (KeyDown key shiftKey) =
     (if activeToolPanel s = None then handleKeyDown key shiftKey s else s)"
| "dispatch s (ClickThumbnail k) =
     (if activeToolPanel s = None \<and> k < length scenes
      then handleSceneClick (scene_id (scenes ! k)) s else s)"
| "dispatch s (ClickTool t) = (if activeToolPanel s = None then handleToolClick t s else s)"

definition run :: "event list \<Rightarrow> session \<Rightarrow> session" where
  "run es s = foldl dispatch s es"


section \<open>AudioPanel\<close>

datatype tab = voice | music

record voice_option =
  voice_id :: string
  voice_name :: string
  sample :: string

record music_track =
  track_id :: string
  track_name :: string
  duration :: string
  category :: string

text \<open>
  The panel's state: its three \<^verbatim>\<open>useState\<close> cells, a clock, and the due times of the
  pending auto-stop callbacks (each callback is \<^verbatim>\<open>setPlaying(null)\<close>).
\<close>

record audio_panel =
  activeTab :: tab
  playing :: "string option"
  script :: string
  audio_now :: nat
  audio_timers :: "nat list"

definition initial_audio_panel :: "nat \<Rightarrow> audio_panel" where
  "initial_audio_panel t0 =
     \<lparr>activeTab = voice, playing = None, script = default_script,
      audio_now = t0, audio_timers = []\<rparr>"

definition voiceOptions :: "voice_option list" where
  "voiceOptions =
     [\<lparr>voice_id = ''v1'', voice_name = ''Professional Male'', sample = ''sample1.mp3''\<rparr>,
      \<lparr>voice_id = ''v2'', voice_name = ''Professional Female'', sample = ''sample2.mp3''\<rparr>,
      \<lparr>voice_id = ''v3'', voice_name = ''Casual Male'', sample = ''sample3.mp3''\<rparr>,
      \<lparr>voice_id = ''v4'', voice_name = ''Casual Female'', sample = ''sample4.mp3''\<rparr>,
      \<lparr>voice_id = ''v5'', voice_name = ''Energetic'', sample = ''sample5.mp3''\<rparr>,
      \<lparr>voice_id = ''v6'', voice_name = ''Soft Spoken'', sample = ''sample6.mp3''\<rparr>]"

definition musicTracks :: "music_track list" where
  "musicTracks =
     [\<lparr>track_id = ''m1'', track_name = ''Inspiring Corporate'', duration = ''2:30'',
       category = ''Corporate''\<rparr>,
      \<lparr>track_id = ''m2'', track_name = ''Upbeat Pop'', duration = ''3:15'',
       category = ''Energetic''\<rparr>,
      \<lparr>track_id = ''m3'', track_name = ''Emotional Piano'', duration = ''2:45'',
       category = ''Emotional''\<rparr>,
      \<lparr>track_id = ''m4'', track_name = ''Tech Innovation'', duration = ''3:05'',
       category = ''Technology''\<rparr>,
      \<lparr>track_id = ''m5'', track_name = ''Ambient Chill'', duration = ''4:20'',
       category = ''Relaxed''\<rparr>]"

definition handlePlayVoice :: "string \<Rightarrow> audio_panel \<Rightarrow> audio_panel" where
  "handlePlayVoice voiceId s =
     (if playing s = Some voiceId then s\<lparr>playing := None\<rparr>
      else s\<lparr>playing := Some voiceId, audio_timers := audio_timers s @ [audio_now s + 3000]\<rparr>)"

definition handlePlayMusic :: "string \<Rightarrow> audio_panel \<Rightarrow> audio_panel" where
  "handlePlayMusic trackId s =
     (if playing s = Some trackId then s\<lparr>playing := None\<rparr>
      else s\<lparr>playing := Some trackId\<rparr>)"

definition auto_stop :: "audio_panel \<Rightarrow> nat \<Rightarrow> audio_panel" where
  "auto_stop s t = s\<lparr>playing := None, audio_now := max (audio_now s) t\<rparr>"

definition audio_advance :: "nat \<Rightarrow> audio_panel \<Rightarrow> audio_panel" where
  "audio_advance d s =
     (let t' = audio_now s + d;
          ready = sort (filter (\<lambda>t. t \<le> t') (audio_timers s));
          rest = filter (\<lambda>t. \<not> t \<le> t') (audio_timers s)
      in (foldl auto_stop (s\<lparr>audio_timers := rest\<rparr>) ready)\<lparr>audio_now := t'\<rparr>)"

text \<open>The play button of an entry shows the pause icon when \<^verbatim>\<open>playing === id\<close>.\<close>

definition is_playing :: "audio_panel \<Rightarrow> string \<Rightarrow> bool" where
  "is_playing s x = (playing s = Some x)"

definition handleScriptChange :: "string \<Rightarrow> audio_panel \<Rightarrow> audio_panel" where
  "handleScriptChange v s = s\<lparr>script := v\<rparr>"

text \<open>
  The panel's events. The voice tab shows the script editor and one play button for
  each voice option, calling \<^verbatim>\<open>handlePlayVoice\<close> with that option's id; the music tab
  shows one play button for each track, calling \<^verbatim>\<open>handlePlayMusic\<close> with that track's
  id. The two tab buttons are always there, and time passes on either tab.
\<close>

datatype audio_event =
    SelectTab tab
  | ScriptChange string
  | ClickVoicePlay nat
  | ClickTrackPlay nat
  | AudioElapse nat

fun audio_dispatch :: "audio_panel \<Rightarrow> audio_event \<Rightarrow> audio_panel" where
  "audio_dispatch s (AudioElapse d) = audio_advance d s"
| "audio_dispatch s (SelectTab t) = s\<lparr>activeTab := t\<rparr>"
| "audio_dispatch s (ScriptChange v) =
     (if activeTab s = voice then handleScriptChange v s else s)"
| "audio_dispatch s (ClickVoicePlay k) =
     (if activeTab s = voice \<and> k < length voiceOptions
      then handlePlayVoice (voice_id (voiceOptions ! k)) s else s)"
| "audio_dispatch s (ClickTrackPlay k) =
     (if activeTab s = music \<and> k < length musicTracks
      then handlePlayMusic (track_id (musicTracks ! k)) s else s)"

definition audio_run :: "audio_event list \<Rightarrow> audio_panel \<Rightarrow> audio_panel" where
  "audio_run es s = foldl audio_dispatch s es"


section \<open>Facts about the string operations\<close>

lemmas js_defs = toLowerCase_def toLowerChar_def isUpper_def isWhiteSpace_def trim_def

text \<open>Setting bit 5 of a capital is adding 32 to its code unit.\<close>

lemma toLowerChar_code_unit:
  "(of_char (toLowerChar c) :: nat) = (if isUpper c then of_char c + 32 else of_char c)"
proof (cases c)
  case (Char b0 b1 b2 b3 b4 b5 b6 b7)
  show ?thesis unfolding Char
    by (cases b0; cases b1; cases b2; cases b3; cases b4; cases b5; cases b6; cases b7;
        simp add: toLowerChar_def isUpper_def)
qed

lemma includes_str_sublist: "includes_str s w \<longleftrightarrow> sublist w s"
  by (induction s) (simp_all add: sublist_Cons_right)

text \<open>
  Searching the lower-cased input for a keyword that is already in lower case is the
  specification's case-insensitive match.
\<close>

lemma includes_lower_iff:
  assumes "toLowerCase w = w"
  shows "includes_str (toLowerCase s) w \<longleftrightarrow> spec_contains_ci s w"
proof
  assume "includes_str (toLowerCase s) w"
  then have "sublist w (map toLowerChar s)"
    by (simp add: includes_str_sublist toLowerCase_def)
  then obtain u where "sublist u s" "w = map toLowerChar u"
    using sublist_map_rightE by blast
  then have "sublist u s" "toLowerCase u = toLowerCase w"
    using assms by (simp_all add: toLowerCase_def)
  then show "spec_contains_ci s w"
    unfolding spec_contains_ci_def by (intro bexI [of _ u]) simp_all
next
  assume "spec_contains_ci s w"
  then obtain u where u: "sublist u s" "toLowerCase u = w"
    using assms by (auto simp: spec_contains_ci_def)
  from u(1) have "sublist (map toLowerChar u) (map toLowerChar s)"
    by (rule map_mono_sublist)
  with u(2) show "includes_str (toLowerCase s) w"
    by (simp add: includes_str_sublist toLowerCase_def)
qed

lemma keywords_lower:
  "toLowerCase ''replace'' = ''replace''"
  "toLowerCase ''change scene'' = ''change scene''"
  "toLowerCase ''script'' = ''script''"
  "toLowerCase ''text'' = ''text''"
  by (simp_all add: js_defs)

lemmas keyword_match =
  includes_lower_iff [OF keywords_lower(1)] includes_lower_iff [OF keywords_lower(2)]
  includes_lower_iff [OF keywords_lower(3)] includes_lower_iff [OF keywords_lower(4)]


section \<open>Facts about timers\<close>

lemmas chat_defs = handleSendMessage_def generateAIResponse_def userMessage_def
  reply_callback_def fire_def advance_def rerender_def handleKeyDown_def
  handleSceneClick_def handleToolClick_def handleCloseToolPanel_def

text \<open>A timer due no earlier than all the others is sorted to the end of the queue.\<close>

lemma insort_key_snoc:
  "f a \<le> f y \<Longrightarrow> insort_key f a (zs @ [y]) = insort_key f a zs @ [y]"
  by (induction zs) simp_all

lemma sort_key_snoc:
  "\<forall>x \<in> set xs. f x \<le> f y \<Longrightarrow> sort_key f (xs @ [y]) = sort_key f xs @ [y]"
proof (induction xs)
  case Nil
  then show ?case by simp
next
  case (Cons a xs)
  then show ?case by (simp add: insort_key_snoc)
qed

lemma fire_fields [simp]:
  "timers (fire s tm) = timers s"
  "input (fire s tm) = input s"
  "rendered (fire s tm) = rendered s"
  "activeScene (fire s tm) = activeScene s"
  "activeToolPanel (fire s tm) = activeToolPanel s"
  "now (fire s tm) = max (now s) (due tm)"
  "messages (fire s tm) =
     messages s @ [aiResponse (closure_messages tm) (max (now s) (due tm)) (userInput tm)]"
  by (simp_all add: fire_def reply_callback_def)

lemma foldl_fire_fields [simp]:
  "timers (foldl fire s tms) = timers s"
  "input (foldl fire s tms) = input s"
  "rendered (foldl fire s tms) = rendered s"
  "activeScene (foldl fire s tms) = activeScene s"
  "activeToolPanel (foldl fire s tms) = activeToolPanel s"
  by (induction tms arbitrary: s) simp_all

lemma foldl_fire_now_le:
  "now s \<le> b \<Longrightarrow> \<forall>tm \<in> set tms. due tm \<le> b \<Longrightarrow> now (foldl fire s tms) \<le> b"
  by (induction tms arbitrary: s) simp_all

lemma foldl_fire_messages:
  "now s = now s' \<Longrightarrow>
   \<exists>r. messages (foldl fire s tms) = messages s @ r \<and>
       messages (foldl fire s' tms) = messages s' @ r"
proof (induction tms arbitrary: s s')
  case Nil
  then show ?case by simp
next
  case (Cons tm tms)
  have "now (fire s tm) = now (fire s' tm)"
    using Cons.prems by simp
  from Cons.IH [OF this] obtain r where
    "messages (foldl fire (fire s tm) tms) = messages (fire s tm) @ r"
    "messages (foldl fire (fire s' tm) tms) = messages (fire s' tm) @ r"
    by blast
  then show ?case
    using Cons.prems by simp
qed

lemma advance_fields [simp]:
  "now (advance d s) = now s + d"
  "timers (advance d s) = filter (\<lambda>tm. \<not> due tm \<le> now s + d) (timers s)"
  "input (advance d s) = input s"
  "rendered (advance d s) = rendered s"
  "activeScene (advance d s) = activeScene s"
  "activeToolPanel (advance d s) = activeToolPanel s"
  by (simp_all add: advance_def Let_def)

lemma advance_messages:
  "messages (advance d s) =
     messages (foldl fire (s\<lparr>timers := filter (\<lambda>tm. \<not> due tm \<le> now s + d) (timers s)\<rparr>)
       (sort_key due (filter (\<lambda>tm. due tm \<le> now s + d) (timers s))))"
  by (simp add: advance_def Let_def)

lemma send_fields:
  assumes "trim (input s) \<noteq> []"
  shows "messages (handleSendMessage s) = rendered s @ [userMessage s]"
    and "rendered (handleSendMessage s) = rendered s @ [userMessage s]"
    and "input (handleSendMessage s) = []"
    and "now (handleSendMessage s) = now s"
    and "timers (handleSendMessage s) =
           timers s @ [\<lparr>due = now s + 1000, userInput = input s, closure_messages = rendered s\<rparr>]"
    and "activeScene (handleSendMessage s) = activeScene s"
    and "activeToolPanel (handleSendMessage s) = activeToolPanel s"
  using assms by (simp_all add: handleSendMessage_def generateAIResponse_def)

lemma advance_after_send:
  assumes ne: "trim (input s) \<noteq> []" and ok: "pending_ok s"
  shows "messages (advance d (handleSendMessage s)) =
           rendered s @ [userMessage s] @ drop (length (messages s)) (messages (advance d s))
           @ (if d < 1000 then []
              else [aiResponse (rendered s) (now s + 1000) (input s)])"
proof -
  let ?s1 = "handleSendMessage s"
  let ?t0 = "\<lparr>due = now s + 1000, userInput = input s, closure_messages = rendered s\<rparr>"
  let ?P = "\<lambda>tm. due tm \<le> now s + d"
  let ?ready = "sort_key due (filter ?P (timers s))"
  let ?a = "s\<lparr>timers := filter (\<lambda>tm. \<not> ?P tm) (timers s)\<rparr>"
  let ?b = "?s1\<lparr>timers := filter (\<lambda>tm. \<not> ?P tm) (timers ?s1)\<rparr>"
  have nowab: "now ?b = now ?a"
    using ne by (simp add: send_fields)
  from foldl_fire_messages [OF nowab, of ?ready] obtain r where
    rb: "messages (foldl fire ?b ?ready) = messages ?b @ r" and
    ra: "messages (foldl fire ?a ?ready) = messages ?a @ r"
    by blast
  have old: "drop (length (messages s)) (messages (advance d s)) = r"
    using ra by (simp add: advance_messages)
  have mb: "messages ?b = rendered s @ [userMessage s]"
    using ne by (simp add: send_fields)
  show ?thesis
  proof (cases "d < 1000")
    case True
    then have "filter ?P (timers ?s1) = filter ?P (timers s)"
      using ne by (simp add: send_fields)
    then have "messages (advance d ?s1) = messages (foldl fire ?b ?ready)"
      using ne by (simp add: advance_messages send_fields)
    then show ?thesis
      using True rb mb old by simp
  next
    case False
    have bound: "\<forall>tm \<in> set (filter ?P (timers s)). due tm \<le> due ?t0"
      using ok by (auto simp: pending_ok_def list_all_iff)
    have "filter ?P (timers ?s1) = filter ?P (timers s) @ [?t0]"
      using ne False by (simp add: send_fields)
    then have "sort_key due (filter ?P (timers ?s1)) = ?ready @ [?t0]"
      using sort_key_snoc [OF bound] by simp
    then have m: "messages (advance d ?s1) = messages (fire (foldl fire ?b ?ready) ?t0)"
      using ne by (simp add: advance_messages send_fields)
    have "now (foldl fire ?b ?ready) \<le> now s + 1000"
    proof (rule foldl_fire_now_le)
      show "now ?b \<le> now s + 1000" using ne by (simp add: send_fields)
      show "\<forall>tm \<in> set ?ready. due tm \<le> now s + 1000"
        using bound by simp
    qed
    then have "max (now (foldl fire ?b ?ready)) (now s + 1000) = now s + 1000"
      by simp
    then show ?thesis
      using False m rb mb old by simp
  qed
qed


text \<open>
  When the render is up to date and no callback is pending at a send, and its reply
  arrives before anything else is sent, the ids stay the consecutive numbers from 1:
  this is the order of events that the id arithmetic of the two handlers fits.
\<close>

lemma advance_no_timers: "timers s = [] \<Longrightarrow> messages (advance d s) = messages s"
  by (simp add: advance_def)

lemma ids_in_order_without_overlap:
  assumes "timers s = []"
    and "map msg_id (messages s) = [1..<Suc (length (messages s))]"
    and "trim (input s) \<noteq> []"
    and "1000 \<le> d"
    and "rendered s = messages s"
  shows "timers (advance d (handleSendMessage s)) = []"
    and "map msg_id (messages (advance d (handleSendMessage s))) =
           [1..<Suc (length (messages (advance d (handleSendMessage s))))]"
proof -
  show "timers (advance d (handleSendMessage s)) = []"
    using assms by (simp add: send_fields)
  have ok: "pending_ok s"
    using assms(1) by (simp add: pending_ok_def)
  have "messages (advance d (handleSendMessage s)) =
          messages s @ [userMessage s, aiResponse (messages s) (now s + 1000) (input s)]"
    using advance_after_send [OF assms(3) ok, of d] assms(1,4,5)
    by (simp add: advance_no_timers)
  moreover have "msg_id (aiResponse m t i) = length m + 2" for m t i
    by (simp add: aiResponse_def Let_def)
  ultimately show "map msg_id (messages (advance d (handleSendMessage s))) =
           [1..<Suc (length (messages (advance d (handleSendMessage s))))]"
    using assms(2,5) by (simp add: userMessage_def)
qed

text \<open>The bound on pending timers holds in every state a session can reach.\<close>

lemma handleSendMessage_pending_ok: "pending_ok s \<Longrightarrow> pending_ok (handleSendMessage s)"
  by (simp add: pending_ok_def handleSendMessage_def generateAIResponse_def)

lemma advance_pending_ok: "pending_ok s \<Longrightarrow> pending_ok (advance d s)"
  by (auto simp: pending_ok_def list_all_iff)

lemma dispatch_pending_ok: "pending_ok s \<Longrightarrow> pending_ok (dispatch s e)"
proof (cases e)
  case (Elapse d)
  assume "pending_ok s"
  then show ?thesis using Elapse by (simp add: advance_pending_ok)
next
  case ClickSend
  assume "pending_ok s"
  then show ?thesis using ClickSend by (simp add: handleSendMessage_pending_ok)
next
  case (KeyDown key shiftKey)
  assume "pending_ok s"
  then show ?thesis
    using KeyDown by (simp add: handleKeyDown_def handleSendMessage_pending_ok)
qed (simp_all add: pending_ok_def handleSceneClick_def handleToolClick_def
       handleCloseToolPanel_def rerender_def)

lemma run_pending_ok: "pending_ok s \<Longrightarrow> pending_ok (run es s)"
  unfolding run_def by (induction es arbitrary: s) (simp_all add: dispatch_pending_ok)

lemma reachable_pending_ok: "pending_ok (run es (initial_session t0))"
  by (rule run_pending_ok) (simp add: pending_ok_def initial_session_def)


section \<open>The response simulator\<close>

text \<open>
  Claim C1. The reply is chosen by a case-insensitive substring match on the input, in
  priority order. An input containing "replace" or "change scene" gets a reply with
  exactly three scene options (and no script); otherwise an input containing "script"
  or "text" gets a reply whose one attachment is the script draft, equal to the fixed
  default script; every other input gets the fixed generic menu text with no
  attachment. This holds for every input, whatever the closure's message list and the
  clock are.
\<close>

theorem simulate_policy:
  "let r = aiResponse msgs t inp;
       scene_kw = (spec_contains_ci inp ''replace'' \<or> spec_contains_ci inp ''change scene'');
       script_kw = (spec_contains_ci inp ''script'' \<or> spec_contains_ci inp ''text'')
   in (scene_kw \<longrightarrow>
         map_option (map option_type) (msg_options r) = Some [''scene'', ''scene'', ''scene'']
         \<and> msg_script r = None)
    \<and> (\<not> scene_kw \<and> script_kw \<longrightarrow>
         msg_options r = None \<and> msg_script r = Some default_script)
    \<and> (\<not> scene_kw \<and> \<not> script_kw \<longrightarrow>
         msg_content r = generic_menu \<and> msg_options r = None \<and> msg_script r = None)"
  by (simp add: aiResponse_def Let_def scene_options_def keyword_match)

theorem simulate_policy_witness:
  "spec_contains_ci ''please replace this scene'' ''replace''
   \<and> map_option (map option_type)
        (msg_options (aiResponse (messages (initial_session 0)) 1000 ''please replace this scene''))
       = Some [''scene'', ''scene'', ''scene'']
   \<and> \<not> (spec_contains_ci ''Edit the SCRIPT'' ''replace''
          \<or> spec_contains_ci ''Edit the SCRIPT'' ''change scene'')
   \<and> spec_contains_ci ''Edit the SCRIPT'' ''script''
   \<and> msg_script (aiResponse (messages (initial_session 0)) 1000 ''Edit the SCRIPT'')
       = Some default_script
   \<and> \<not> (spec_contains_ci ''hello'' ''replace'' \<or> spec_contains_ci ''hello'' ''change scene'')
   \<and> \<not> (spec_contains_ci ''hello'' ''script'' \<or> spec_contains_ci ''hello'' ''text'')
   \<and> msg_content (aiResponse (messages (initial_session 0)) 1000 ''hello'') = generic_menu
   \<and> msg_options (aiResponse (messages (initial_session 0)) 1000 ''hello'') = None"
proof -
  have kw:
    "spec_contains_ci ''please replace this scene'' ''replace''"
    "\<not> spec_contains_ci ''Edit the SCRIPT'' ''replace''"
    "\<not> spec_contains_ci ''Edit the SCRIPT'' ''change scene''"
    "spec_contains_ci ''Edit the SCRIPT'' ''script''"
    "\<not> spec_contains_ci ''hello'' ''replace''"
    "\<not> spec_contains_ci ''hello'' ''change scene''"
    "\<not> spec_contains_ci ''hello'' ''script''"
    "\<not> spec_contains_ci ''hello'' ''text''"
    by (simp_all add: keyword_match [symmetric] js_defs)
  show ?thesis
    using kw
      simulate_policy [of "messages (initial_session 0)" 1000 "''please replace this scene''"]
      simulate_policy [of "messages (initial_session 0)" 1000 "''Edit the SCRIPT''"]
      simulate_policy [of "messages (initial_session 0)" 1000 "''hello''"]
    by (simp add: Let_def)
qed


section \<open>Sending a message\<close>

text \<open>
  What a send does in every state. With an input that trims to the empty string it
  changes nothing. Otherwise it sets the log to the render's list with one user
  message added, clears the input buffer and schedules one callback; letting \<open>d\<close> ms
  pass then adds the replies of the callbacks that were pending already and, once \<open>d\<close>
  reaches 1000 and not before, the reply to this message at the end, after which the
  callback is no longer pending.
\<close>

lemma send_empty_is_noop: "trim (input s) = [] \<Longrightarrow> handleSendMessage s = s"
  by (simp add: handleSendMessage_def)

lemma aiResponse_type: "msg_type (aiResponse msgs t inp) = ai"
  by (simp add: aiResponse_def Let_def)

lemma send_effect:
  assumes "trim (input s) \<noteq> []" and "pending_ok s"
  shows "messages (handleSendMessage s) = rendered s @ [userMessage s]"
    and "msg_type (userMessage s) = user"
    and "msg_content (userMessage s) = input s"
    and "input (handleSendMessage s) = []"
    and "messages (advance d (handleSendMessage s)) =
           rendered s @ [userMessage s]
           @ drop (length (messages s)) (messages (advance d s))
           @ (if d < 1000 then []
              else [aiResponse (rendered s) (now s + 1000) (input s)])"
    and "1000 \<le> d \<Longrightarrow> timers (advance d (handleSendMessage s)) = timers (advance d s)"
  using assms by (simp_all add: send_fields advance_after_send userMessage_def)

text \<open>
  When the render is up to date, the send is an append: the log keeps all it had and
  gains exactly one user message at once and exactly one assistant message 1000 ms
  later. Every render leaves the session in such a state, and so does every send.
\<close>

lemma send_appends_when_rendered:
  assumes "trim (input s) \<noteq> []" and "pending_ok s" and "rendered s = messages s"
  shows "messages (handleSendMessage s) = messages s @ [userMessage s]"
    and "messages (advance d (handleSendMessage s)) =
           messages s @ [userMessage s]
           @ drop (length (messages s)) (messages (advance d s))
           @ (if d < 1000 then []
              else [aiResponse (messages s) (now s + 1000) (input s)])"
  using send_effect [OF assms(1,2)] assms(3) by simp_all

lemma rendered_after_render: "rendered (rerender s) = messages (rerender s)"
  by (simp add: rerender_def)

lemma rendered_after_send:
  "trim (input s) \<noteq> [] \<Longrightarrow> rendered (handleSendMessage s) = messages (handleSendMessage s)"
  by (simp add: send_fields)

text \<open>
  Claim C2 says that a send with a non-empty trimmed input appends exactly one user
  message, and that a send with an empty one changes nothing. The second half holds
  (\<open>send_empty_is_noop\<close>). The first fails when a reply has been added since the
  latest render: the send does not append to the log but overwrites it with the
  render's list, and the reply is lost. The user sends "script", types "b", and
  sends it just after the reply to "script" has arrived, before that reply is
  rendered. Before the second send the log holds the greeting, the user message and
  the reply; after it the reply is gone and the second user message stands in its
  place, with the reply's id; 1000 ms later the log holds four messages, not five.
  The callback's own update, in the same component, is the functional one that appends
  to the current value.
\<close>

theorem send_erases_unrendered_reply:
  "let s = run [Change ''script'', ClickSend, Change ''b'', Elapse 1000] (initial_session 0)
   in map (\<lambda>m. (msg_id m, msg_type m, msg_timestamp m)) (messages s)
        = [(1, ai, 0), (2, user, 0), (3, ai, 1000)]
    \<and> map (\<lambda>m. (msg_id m, msg_type m, msg_timestamp m)) (messages (run [ClickSend] s))
        = [(1, ai, 0), (2, user, 0), (3, user, 1000)]
    \<and> map (\<lambda>m. (msg_id m, msg_type m, msg_timestamp m))
          (messages (run [ClickSend, Elapse 1000] s))
        = [(1, ai, 0), (2, user, 0), (3, user, 1000), (4, ai, 2000)]"
  by (simp add: run_def initial_session_def chat_defs aiResponse_def js_defs Let_def)

text \<open>
  With the render in between, the same events give the five messages in order.
\<close>

lemma send_after_render_keeps_reply:
  "map (\<lambda>m. (msg_id m, msg_type m, msg_timestamp m))
     (messages (run [Change ''script'', ClickSend, Change ''b'', Elapse 1000, Render,
                     ClickSend, Elapse 1000] (initial_session 0)))
   = [(1, ai, 0), (2, user, 0), (3, ai, 1000), (4, user, 1000), (5, ai, 2000)]"
  by (simp add: run_def initial_session_def chat_defs aiResponse_def js_defs Let_def)


section \<open>Message ids\<close>

text \<open>
  Claim C3 says that ids grow strictly along the log under every interleaving of sends
  and delayed replies. The user message takes the id \<^verbatim>\<open>messages.length + 1\<close> and the
  reply takes \<^verbatim>\<open>messages.length + 2\<close>, where \<^verbatim>\<open>messages\<close> is the array of the render
  that sent the message, so the reply counts on its own user message being the only
  one added meanwhile. When a second message is sent before the first reply arrives,
  the second user message and the first reply both get the id 3: the log then holds
  the ids 1, 2, 3, 3, and the last message's id is not greater than the one before it.
\<close>

theorem message_ids_collide:
  "map (\<lambda>m. (msg_id m, msg_type m))
     (messages (run [Change ''a'', ClickSend, Elapse 500, Change ''b'', ClickSend, Elapse 500]
        (initial_session 0)))
   = [(1, ai), (2, user), (3, user), (3, ai)]"
  by (simp add: run_def initial_session_def chat_defs aiResponse_def js_defs Let_def)


section \<open>Determinism of the reply\<close>

text \<open>
  Claim C4 says that two invocations with the same input give the same reply message
  in any session states. It fails as stated: the reply's id is computed from the
  length of the message list and its timestamp from the clock. The replies to two
  sends of the same text "hello" in one session differ.
\<close>

theorem reply_depends_on_history:
  "last (messages (run [Change ''hello'', ClickSend, Elapse 1000] (initial_session 0)))
   \<noteq> last (messages (run [Change ''hello'', ClickSend, Elapse 1000, Render,
                            Change ''hello'', ClickSend, Elapse 1000] (initial_session 0)))"
  by (simp add: run_def initial_session_def chat_defs aiResponse_def js_defs Let_def)

text \<open>
  Claim C4, amended. For the same input text the reply is the same in every field but
  its id and its timestamp, whatever the message history and the clock: the author,
  the content and the attachments depend on the input text alone. The id is the length
  of the message list of the sending render plus 2, and the timestamp is the clock
  when the callback runs.
\<close>

theorem reply_body_deterministic:
  "aiResponse msgs t inp = (aiResponse msgs' t' inp)\<lparr>msg_id := length msgs + 2, msg_timestamp := t\<rparr>"
  by (simp add: aiResponse_def Let_def)


section \<open>The change-scene scenario\<close>

text \<open>
  Claim C5 says that after sending "change scene" from the starting session and letting
  the delay pass, the session holds 2 messages. The starting session is not empty: it
  holds the assistant's greeting with id 1, so the count is not 2.
\<close>

theorem change_scene_count_not_2:
  "length (messages (run [Change ''change scene'', ClickSend, Elapse 1000] (initial_session 0))) \<noteq> 2"
  by (simp add: run_def initial_session_def chat_defs aiResponse_def js_defs Let_def)

text \<open>
  Claim C5, amended. Starting from the initial session, whose log holds the assistant's
  greeting, after the user sends "change scene" and the 1000 ms delay elapses, the log
  holds 3 messages (greeting, user message, reply), and the last one, the assistant's
  reply, carries 3 scene options.
\<close>

theorem change_scene_scenario:
  "let s = run [Change ''change scene'', ClickSend, Elapse 1000] (initial_session t0)
   in length (messages s) = 3
    \<and> map msg_type (messages s) = [ai, user, ai]
    \<and> map_option (map option_type) (msg_options (last (messages s)))
        = Some [''scene'', ''scene'', ''scene'']"
  by (simp add: run_def initial_session_def chat_defs aiResponse_def js_defs Let_def scene_options_def)


section \<open>Scene selection\<close>

text \<open>
  Claim C6 says that selecting an id outside the catalog is a silent no-op. The handler
  has no catalog check: it stores whatever id it is given. The id 99 is not in the
  catalog, and \<^verbatim>\<open>handleSceneClick(99)\<close> changes the active scene from 0 to 99.
\<close>

theorem unknown_scene_is_selected:
  "99 \<notin> set (map scene_id scenes)
   \<and> activeScene (initial_session 0) = 0
   \<and> activeScene (handleSceneClick 99 (initial_session 0)) = 99"
  by (simp add: scenes_def handleSceneClick_def initial_session_def)

lemma dispatch_activeScene:
  "activeScene s \<in> insert 0 (set (map scene_id scenes)) \<Longrightarrow>
   activeScene (dispatch s e) \<in> insert 0 (set (map scene_id scenes))"
proof (cases e)
  case (ClickThumbnail k)
  assume a: "activeScene s \<in> insert 0 (set (map scene_id scenes))"
  show ?thesis
  proof (cases "activeToolPanel s = None \<and> k < length scenes")
    case True
    then have "scene_id (scenes ! k) \<in> set (map scene_id scenes)"
      by (metis length_map nth_map nth_mem)
    with True ClickThumbnail show ?thesis
      by (simp add: handleSceneClick_def)
  next
    case False
    with a ClickThumbnail show ?thesis by auto
  qed
qed (simp_all add: handleSendMessage_def generateAIResponse_def handleKeyDown_def
       handleToolClick_def handleCloseToolPanel_def rerender_def)

lemma run_activeScene:
  "activeScene s \<in> insert 0 (set (map scene_id scenes)) \<Longrightarrow>
   activeScene (run es s) \<in> insert 0 (set (map scene_id scenes))"
  unfolding run_def
proof (induction es arbitrary: s)
  case Nil
  then show ?case by simp
next
  case (Cons e es)
  from Cons.prems have "activeScene (dispatch s e) \<in> insert 0 (set (map scene_id scenes))"
    by (rule dispatch_activeScene)
  from Cons.IH [OF this] show ?case by simp
qed

text \<open>
  Claim C6, amended. \<^verbatim>\<open>handleSceneClick(id)\<close> sets the active scene to \<open>id\<close> for every
  \<open>id\<close>, in the catalog or not. The thumbnails call it with catalog ids only, so in
  every state a session reaches through its events the active scene is either its
  initial value 0, which is no catalog id and marks no thumbnail, or the id of a scene
  of the catalog.
\<close>

theorem select_scene_unchecked:
  "activeScene (handleSceneClick i s) = i
   \<and> activeScene (run es (initial_session t0)) \<in> insert 0 (set (map scene_id scenes))"
proof -
  have "activeScene (initial_session t0) \<in> insert 0 (set (map scene_id scenes))"
    by (simp add: initial_session_def)
  then have "activeScene (run es (initial_session t0)) \<in> insert 0 (set (map scene_id scenes))"
    by (rule run_activeScene)
  moreover have "activeScene (handleSceneClick i s) = i"
    by (simp add: handleSceneClick_def)
  ultimately show ?thesis by blast
qed


section \<open>Tool panels\<close>

lemma getToolPanel_inj: "getToolPanel t = getToolPanel t' \<longleftrightarrow> t = t'"
  by (cases t; cases t') simp_all

lemma getToolPanel_not_chat: "getToolPanel t \<noteq> ChatView"
  by (cases t) simp_all

text \<open>
  Claim C8. At most one tool panel is open at any time, and an open panel excludes the
  chat and scene view; opening a panel makes it the open one; closing always leads to
  the chat view, is a no-op when no panel is open, and is idempotent.
\<close>

theorem one_panel_close_idempotent:
  "(panel_open s t \<and> panel_open s t' \<longrightarrow> t = t')
   \<and> (panel_open s t \<longrightarrow> render s \<noteq> ChatView)
   \<and> panel_open (handleToolClick t s) t
   \<and> render (handleCloseToolPanel s) = ChatView
   \<and> (render s = ChatView \<longrightarrow> handleCloseToolPanel s = s)
   \<and> handleCloseToolPanel (handleCloseToolPanel s) = handleCloseToolPanel s"
  by (auto simp: panel_open_def render_def handleToolClick_def handleCloseToolPanel_def
        getToolPanel_inj getToolPanel_not_chat getToolPanel_not_chat [THEN not_sym]
        split: option.splits)

theorem one_panel_close_idempotent_witness:
  "panel_open (handleToolClick Audio (initial_session 0)) Audio
   \<and> \<not> panel_open (handleToolClick Audio (initial_session 0)) Scenes
   \<and> render (handleToolClick Audio (initial_session 0)) \<noteq> ChatView
   \<and> render (initial_session 0) = ChatView
   \<and> handleCloseToolPanel (initial_session 0) = initial_session 0"
proof -
  have a: "panel_open (handleToolClick Audio (initial_session 0)) Audio"
    by (simp add: panel_open_def render_def handleToolClick_def)
  have b: "render (initial_session 0) = ChatView"
    by (simp add: render_def initial_session_def)
  show ?thesis
    using a b
      one_panel_close_idempotent [of "handleToolClick Audio (initial_session 0)" Audio Scenes]
      one_panel_close_idempotent [of "initial_session 0" Audio Audio]
    by auto
qed


section \<open>Audio previews\<close>

lemmas audio_defs = handlePlayVoice_def handlePlayMusic_def audio_advance_def auto_stop_def
  is_playing_def

text \<open>
  Claim C7. At most one preview is playing at any time, voice samples and music tracks
  together; starting playback of \<open>b\<close> while \<open>a\<close> is playing stops \<open>a\<close>, and when \<open>b\<close>
  is another preview than \<open>a\<close> it is \<open>b\<close> that plays afterwards.
\<close>

theorem one_preview_playing:
  "(is_playing s x \<and> is_playing s y \<longrightarrow> x = y)
   \<and> (is_playing s a \<longrightarrow>
        \<not> is_playing (handlePlayVoice b s) a \<and> \<not> is_playing (handlePlayMusic b s) a)
   \<and> (is_playing s a \<and> a \<noteq> b \<longrightarrow>
        is_playing (handlePlayVoice b s) b \<and> is_playing (handlePlayMusic b s) b)"
  by (auto simp: is_playing_def handlePlayVoice_def handlePlayMusic_def)

theorem one_preview_playing_witness:
  "is_playing (handlePlayVoice ''v1'' (initial_audio_panel 0)) ''v1''
   \<and> ''v1'' \<noteq> ''m2''
   \<and> \<not> is_playing (handlePlayMusic ''m2'' (handlePlayVoice ''v1'' (initial_audio_panel 0))) ''v1''
   \<and> is_playing (handlePlayMusic ''m2'' (handlePlayVoice ''v1'' (initial_audio_panel 0))) ''m2''
   \<and> \<not> is_playing (handlePlayVoice ''v2'' (handlePlayVoice ''v1'' (initial_audio_panel 0))) ''v1''
   \<and> is_playing (handlePlayVoice ''v2'' (handlePlayVoice ''v1'' (initial_audio_panel 0))) ''v2''"
proof -
  have a: "is_playing (handlePlayVoice ''v1'' (initial_audio_panel 0)) ''v1''"
    by (simp add: is_playing_def handlePlayVoice_def initial_audio_panel_def)
  show ?thesis
    using a
      one_preview_playing [of "handlePlayVoice ''v1'' (initial_audio_panel 0)" _ _ "''v1''" "''m2''"]
      one_preview_playing [of "handlePlayVoice ''v1'' (initial_audio_panel 0)" _ _ "''v1''" "''v2''"]
    by simp
qed

text \<open>
  Claim C10. The play action is a toggle. Invoked on the preview that is playing, it
  only unsets \<^verbatim>\<open>playing\<close>: nothing else in the state changes, so nothing is started and
  no timer is scheduled. Invoked on any other id, it makes that id the playing one.
\<close>

theorem play_is_a_toggle:
  "(is_playing s x \<longrightarrow>
        handlePlayVoice x s = s\<lparr>playing := None\<rparr> \<and> handlePlayMusic x s = s\<lparr>playing := None\<rparr>)
   \<and> (\<not> is_playing s x \<longrightarrow>
        playing (handlePlayVoice x s) = Some x \<and> playing (handlePlayMusic x s) = Some x)"
  by (simp add: is_playing_def handlePlayVoice_def handlePlayMusic_def)

theorem play_is_a_toggle_witness:
  "is_playing (handlePlayMusic ''m1'' (initial_audio_panel 0)) ''m1''
   \<and> playing (handlePlayMusic ''m1'' (handlePlayMusic ''m1'' (initial_audio_panel 0))) = None
   \<and> audio_timers (handlePlayVoice ''m1'' (handlePlayMusic ''m1'' (initial_audio_panel 0))) = []
   \<and> \<not> is_playing (initial_audio_panel 0) ''v3''
   \<and> playing (handlePlayVoice ''v3'' (initial_audio_panel 0)) = Some ''v3''"
proof -
  have a: "is_playing (handlePlayMusic ''m1'' (initial_audio_panel 0)) ''m1''"
    by (simp add: is_playing_def handlePlayMusic_def initial_audio_panel_def)
  have b: "\<not> is_playing (initial_audio_panel 0) ''v3''"
    by (simp add: is_playing_def initial_audio_panel_def)
  have c: "audio_timers (handlePlayMusic ''m1'' (initial_audio_panel 0)) = []"
    by (simp add: handlePlayMusic_def initial_audio_panel_def)
  show ?thesis
    using a b c
      play_is_a_toggle [of "handlePlayMusic ''m1'' (initial_audio_panel 0)" "''m1''"]
      play_is_a_toggle [of "initial_audio_panel 0" "''v3''"]
    by simp
qed

text \<open>
  What holds of the auto-stop: 3000 ms after a voice preview starts nothing is playing,
  and starting a music track schedules nothing, so that with no callback pending the
  track keeps playing however long one waits. The 3000 ms are an upper bound only: the
  callback of an earlier preview resets a later voice preview sooner, as it resets a
  music track (\<open>voice_preview_reset_early\<close>).
\<close>

lemma foldl_auto_stop_playing:
  "playing (foldl auto_stop s ts) = (if ts = [] then playing s else None)"
  by (induction ts arbitrary: s) (simp_all add: auto_stop_def)

lemma voice_preview_auto_resets:
  "\<not> is_playing s x \<Longrightarrow>
     playing (handlePlayVoice x s) = Some x
     \<and> playing (audio_advance 3000 (handlePlayVoice x s)) = None"
proof -
  assume n: "\<not> is_playing s x"
  let ?s1 = "handlePlayVoice x s"
  have "audio_now s + 3000 \<in> set (filter (\<lambda>t. t \<le> audio_now ?s1 + 3000) (audio_timers ?s1))"
    using n by (simp add: handlePlayVoice_def is_playing_def)
  then have "sort (filter (\<lambda>t. t \<le> audio_now ?s1 + 3000) (audio_timers ?s1)) \<noteq> []"
    by (metis empty_iff list.set(1) set_sort)
  then have "playing (audio_advance 3000 ?s1) = None"
    by (simp add: audio_advance_def Let_def foldl_auto_stop_playing)
  then show ?thesis
    using n by (simp add: handlePlayVoice_def is_playing_def)
qed

lemma voice_preview_reset_early:
  "let s = audio_run [ClickVoicePlay 0, AudioElapse 1000, ClickVoicePlay 0, AudioElapse 1000,
                      ClickVoicePlay 1] (initial_audio_panel 0)
   in playing s = Some ''v2''
    \<and> playing (audio_run [AudioElapse 999] s) = Some ''v2''
    \<and> playing (audio_run [AudioElapse 1000] s) = None"
  by (simp add: audio_run_def voiceOptions_def handlePlayVoice_def audio_advance_def
        auto_stop_def initial_audio_panel_def Let_def)

lemma music_schedules_no_timer:
  "audio_timers (handlePlayMusic x s) = audio_timers s"
  by (simp add: handlePlayMusic_def)

lemma music_keeps_playing_without_timers:
  "\<not> is_playing s x \<Longrightarrow> audio_timers s = [] \<Longrightarrow>
     playing (audio_advance d (handlePlayMusic x s)) = Some x"
  by (simp add: handlePlayMusic_def is_playing_def audio_advance_def Let_def)

text \<open>
  Claim C9 says that a voice preview resets after a fixed time and that a music track,
  once started, never resets on its own. The callback that a voice preview schedules is
  not tied to that preview: it unsets \<^verbatim>\<open>playing\<close> whatever is playing when it runs.
  The user plays the first voice sample, switches to the music tab and, 1000 ms after
  the voice sample started, plays the first track: the track is still playing 1999 ms
  later and is reset, with no user action, at 2000 ms, when the voice preview's
  callback runs.
\<close>

theorem stale_voice_timer_stops_music:
  "let s = audio_run [ClickVoicePlay 0, AudioElapse 1000, SelectTab music, ClickTrackPlay 0]
             (initial_audio_panel 0)
   in playing s = Some ''m1''
    \<and> playing (audio_dispatch s (AudioElapse 1999)) = Some ''m1''
    \<and> playing (audio_dispatch s (AudioElapse 2000)) = None"
  by (simp add: audio_run_def voiceOptions_def musicTracks_def handlePlayMusic_def
        handlePlayVoice_def audio_advance_def auto_stop_def initial_audio_panel_def Let_def)

end
